theory Spec2Isabelle
  imports Main "HOL-Library.Char_ord" "HOL-Library.List_Lexorder"
begin

section \<open>JavaScript values and the platform functions the code calls\<close>

text \<open>
  Request bodies come from the JSON body parser and query strings from the query parser,
  so a value is undefined (a missing property), null, a boolean, a number, a string, an
  array or an object. Numbers are kept as integers: the code only tests them for
  truthiness and prints them. Strings are character lists; the comparison \<open><\<close> on them
  is the lexicographic order on character codes, as in JavaScript. The string methods of
  the platform (\<open>trim\<close>, \<open>toLowerCase\<close>) are given on the ASCII range.
\<close>

datatype jsval =
    JUndefined
  | JNull
  | JBool bool
  | JNum int
  | JStr string
  | JArr "jsval list"
  | JObj "(string \<times> jsval) list"

text \<open>
  A request body and a query are objects. An object is its list of properties; reading a
  missing property gives undefined.
\<close>

type_synonym jsobj = "(string \<times> jsval) list"

definition field :: "jsobj \<Rightarrow> string \<Rightarrow> jsval" where
  "field obj k = (case map_of obj k of None \<Rightarrow> JUndefined | Some v \<Rightarrow> v)"

text \<open>Truthiness, as tested by \<open>if (v)\<close>, \<open>!v\<close>, \<open>v && w\<close> and \<open>v || w\<close>.\<close>

fun truthy :: "jsval \<Rightarrow> bool" where
  "truthy JUndefined = False"
| "truthy JNull = False"
| "truthy (JBool b) = b"
| "truthy (JNum n) = (n \<noteq> 0)"
| "truthy (JStr s) = (s \<noteq> [])"
| "truthy (JArr xs) = True"
| "truthy (JObj kvs) = True"

text \<open>\<open>typeof v === 'string'\<close>.\<close>

fun is_string :: "jsval \<Rightarrow> bool" where
  "is_string (JStr s) = True"
| "is_string v = False"

text \<open>
  \<open>list.includes(v)\<close> for a list of string constants: only a string value equal to one of
  them is included.
\<close>

fun array_includes :: "string list \<Rightarrow> jsval \<Rightarrow> bool" where
  "array_includes xs (JStr s) = (s \<in> set xs)"
| "array_includes xs v = False"

text \<open>\<open>Array.prototype.join\<close> on strings.\<close>

fun join :: "string \<Rightarrow> string list \<Rightarrow> string" where
  "join sep [] = []"
| "join sep [x] = x"
| "join sep (x # y # ys) = x @ sep @ join sep (y # ys)"

text \<open>Printing a number: its decimal digits, with a minus sign when negative.\<close>

definition digit :: "nat \<Rightarrow> char" where
  "digit d = ''0123456789'' ! d"

fun decimal :: "nat \<Rightarrow> string" where
  "decimal n = (if n < 10 then [digit n] else decimal (n div 10) @ [digit (n mod 10)])"

definition number_text :: "int \<Rightarrow> string" where
  "number_text i = (if i < 0 then CHR ''-'' # decimal (nat (- i)) else decimal (nat i))"

text \<open>
  The string a template literal \<open>${v}\<close> inserts: an array prints its elements joined by
  commas, with null and undefined elements printed as nothing; a plain object prints as
  \<open>[object Object]\<close>.
\<close>

fun toString :: "jsval \<Rightarrow> string" where
  "toString JUndefined = ''undefined''"
| "toString JNull = ''null''"
| "toString (JBool b) = (if b then ''true'' else ''false'')"
| "toString (JNum n) = number_text n"
| "toString (JStr s) = s"
| "toString (JArr xs) =
     join '','' (map (\<lambda>x. if x = JUndefined \<or> x = JNull then [] else toString x) xs)"
| "toString (JObj kvs) = ''[object Object]''"

text \<open>\<open>String.prototype.trim\<close>: white space is removed at both ends.\<close>

definition is_space :: "char \<Rightarrow> bool" where
  "is_space c = (c \<in> set [CHR 0x09, CHR 0x0A, CHR 0x0B, CHR 0x0C, CHR 0x0D, CHR '' ''])"

definition trim :: "string \<Rightarrow> string" where
  "trim s = rev (dropWhile is_space (rev (dropWhile is_space s)))"

text \<open>\<open>String.prototype.toLowerCase\<close>, on the letters A to Z.\<close>

definition lower_char :: "char \<Rightarrow> char" where
  "lower_char c =
     (case map_of (zip ''ABCDEFGHIJKLMNOPQRSTUVWXYZ'' ''abcdefghijklmnopqrstuvwxyz'') c of
        Some l \<Rightarrow> l
      | None \<Rightarrow> c)"

definition toLowerCase :: "string \<Rightarrow> string" where
  "toLowerCase s = map lower_char s"

text \<open>\<open>s.includes(t)\<close> on strings: \<open>t\<close> occurs in \<open>s\<close> as a contiguous block.\<close>

fun starts_with :: "string \<Rightarrow> string \<Rightarrow> bool" where
  "starts_with s [] = True"
| "starts_with [] (d # t) = False"
| "starts_with (c # s) (d # t) = (c = d \<and> starts_with s t)"

fun str_includes :: "string \<Rightarrow> string \<Rightarrow> bool" where
  "str_includes [] t = (t = [])"
| "str_includes (c # s) t = (starts_with (c # s) t \<or> str_includes s t)"

text \<open>
  \<open>Array.prototype.sort(cmp)\<close>: the language standard requires a stable sort, so for a
  consistent comparison function the result is the one of a stable insertion sort. An
  element is placed in front of the first element it does not compare greater than.
\<close>

fun insert_sorted :: "('a \<Rightarrow> 'a \<Rightarrow> int) \<Rightarrow> 'a \<Rightarrow> 'a list \<Rightarrow> 'a list" where
  "insert_sorted cmp x [] = [x]"
| "insert_sorted cmp x (y # ys) =
     (if cmp x y \<le> 0 then x # y # ys else y # insert_sorted cmp x ys)"

definition Array_sort :: "('a \<Rightarrow> 'a \<Rightarrow> int) \<Rightarrow> 'a list \<Rightarrow> 'a list" where
  "Array_sort cmp xs = foldr (insert_sorted cmp) xs []"

section \<open>Errors\<close>

text \<open>
  \<open>AppError\<close> carries the message, the HTTP status code and the machine-readable kind.
  \<open>TypeError\<close> is the exception the runtime throws when a method is called on a value that
  does not have it.
\<close>

datatype error = AppError (message: string) (statusCode: nat) (kind: string) | TypeError

section \<open>Validators\<close>

definition VALID_STATUSES :: "string list" where
  "VALID_STATUSES = [''active'', ''on_hold'', ''completed'']"

text \<open>
  \<open>isValidISODate\<close>: the value is a string and \<open>new Date(value)\<close> is a valid date. The
  platform's date parser is a parameter: it gives the time of a string in milliseconds, or
  nothing when the date is invalid.
\<close>

type_synonym date_parser = "string \<Rightarrow> int option"

fun isValidISODate :: "date_parser \<Rightarrow> jsval \<Rightarrow> bool" where
  "isValidISODate parse (JStr s) = (parse s \<noteq> None)"
| "isValidISODate parse v = False"

text \<open>The validated project fields, before the store adds its own.\<close>

record projectData =
  name :: string
  clientName :: string
  status :: string
  startDate :: string
  endDate :: "string option"

text \<open>The string inside a string value; used only where the value is known to be one.\<close>

fun str_of :: "jsval \<Rightarrow> string" where
  "str_of (JStr s) = s"
| "str_of v = []"

text \<open>\<open>new Date(e) < new Date(s)\<close> for two values that passed \<open>isValidISODate\<close>.\<close>

definition date_before :: "date_parser \<Rightarrow> jsval \<Rightarrow> jsval \<Rightarrow> bool" where
  "date_before parse e s =
     (case (parse (str_of e), parse (str_of s)) of
        (Some te, Some ts) \<Rightarrow> te < ts
      | _ \<Rightarrow> False)"

text \<open>The \<open>errors\<close> array of \<open>validateCreateProject\<close>, in the order of the pushes.\<close>

definition name_errors :: "jsobj \<Rightarrow> string list" where
  "name_errors body =
     (if \<not> truthy (field body ''name'') \<or> \<not> is_string (field body ''name'')
         \<or> trim (str_of (field body ''name'')) = []
      then [''name is required and must be a non-empty string''] else [])"

definition clientName_errors :: "jsobj \<Rightarrow> string list" where
  "clientName_errors body =
     (if \<not> truthy (field body ''clientName'') \<or> \<not> is_string (field body ''clientName'')
         \<or> trim (str_of (field body ''clientName'')) = []
      then [''clientName is required and must be a non-empty string''] else [])"

definition status_errors :: "jsobj \<Rightarrow> string list" where
  "status_errors body =
     (if field body ''status'' \<noteq> JUndefined \<and> \<not> array_includes VALID_STATUSES (field body ''status'')
      then [''status must be one of: '' @ join '', '' VALID_STATUSES] else [])"

definition startDate_errors :: "date_parser \<Rightarrow> jsobj \<Rightarrow> string list" where
  "startDate_errors parse body =
     (if \<not> truthy (field body ''startDate'') then [''startDate is required'']
      else if \<not> isValidISODate parse (field body ''startDate'')
      then [''startDate must be a valid ISO date string'']
      else [])"

definition endDate_errors :: "date_parser \<Rightarrow> jsobj \<Rightarrow> string list" where
  "endDate_errors parse body =
     (if field body ''endDate'' \<noteq> JUndefined \<and> field body ''endDate'' \<noteq> JNull then
        (if \<not> isValidISODate parse (field body ''endDate'')
         then [''endDate must be a valid ISO date string'']
         else if truthy (field body ''startDate'') \<and> isValidISODate parse (field body ''startDate'')
         then (if date_before parse (field body ''endDate'') (field body ''startDate'')
               then [''endDate cannot be before startDate''] else [])
         else [])
      else [])"

definition create_errors :: "date_parser \<Rightarrow> jsobj \<Rightarrow> string list" where
  "create_errors parse body =
     name_errors body @ clientName_errors body @ status_errors body
     @ startDate_errors parse body @ endDate_errors parse body"

definition validateCreateProject :: "date_parser \<Rightarrow> jsobj \<Rightarrow> error + projectData" where
  "validateCreateProject parse body =
     (if length (create_errors parse body) > 0
      then Inl (AppError (join ''; '' (create_errors parse body)) 400 ''VALIDATION_ERROR'')
      else Inr \<lparr> name = trim (str_of (field body ''name'')),
                 clientName = trim (str_of (field body ''clientName'')),
                 status = (if truthy (field body ''status'') then str_of (field body ''status'')
                           else ''active''),
                 startDate = str_of (field body ''startDate''),
                 endDate = (if truthy (field body ''endDate'')
                            then Some (str_of (field body ''endDate'')) else None) \<rparr>)"

definition validateStatusUpdate :: "jsobj \<Rightarrow> error + string" where
  "validateStatusUpdate body =
     (if \<not> truthy (field body ''status'') \<or> \<not> array_includes VALID_STATUSES (field body ''status'')
      then Inl (AppError (''status is required and must be one of: '' @ join '', '' VALID_STATUSES)
                  400 ''VALIDATION_ERROR'')
      else Inr (str_of (field body ''status'')))"

section \<open>The store\<close>

text \<open>
  A stored project: the validated fields and the four the store assigns. The field \<open>id\<close>
  of the source is \<open>project_id\<close> here.
\<close>

record project = projectData +
  project_id :: string
  isDeleted :: bool
  createdAt :: string
  updatedAt :: string

text \<open>The module variable \<open>projects\<close>: the array of stored records, oldest first.\<close>

type_synonym store = "project list"

text \<open>
  \<open>clone\<close> is a JSON round trip. A stored record holds strings, a boolean and null only,
  so the copy has the same fields as the original.
\<close>

definition clone :: "project \<Rightarrow> project" where
  "clone obj = obj"

text \<open>
  \<open>create\<close>: \<open>now\<close> is the value of \<open>new Date().toISOString()\<close> and \<open>uuid\<close> the value of
  \<open>randomUUID()\<close> at the call. An empty status or end date is falsy and gets the default.
\<close>

definition new_project :: "string \<Rightarrow> string \<Rightarrow> projectData \<Rightarrow> project" where
  "new_project now uuid projectData =
     \<lparr> name = name projectData,
       clientName = clientName projectData,
       status = (if status projectData \<noteq> [] then status projectData else ''active''),
       startDate = startDate projectData,
       endDate = (case endDate projectData of
                    Some e \<Rightarrow> if e \<noteq> [] then Some e else None
                  | None \<Rightarrow> None),
       project_id = uuid,
       isDeleted = False,
       createdAt = now,
       updatedAt = now \<rparr>"

definition create :: "string \<Rightarrow> string \<Rightarrow> store \<Rightarrow> projectData \<Rightarrow> project \<times> store" where
  "create now uuid projects projectData =
     (clone (new_project now uuid projectData), projects @ [new_project now uuid projectData])"

definition findById :: "store \<Rightarrow> string \<Rightarrow> project option" where
  "findById projects pid =
     (case find (\<lambda>p. project_id p = pid) projects of
        Some p \<Rightarrow> Some (clone p)
      | None \<Rightarrow> None)"

text \<open>
  \<open>findAll\<close>. The four options are the destructured properties; \<open>sort\<close> and \<open>order\<close>
  (\<open>sortv\<close> and \<open>orderv\<close> below) take their defaults when undefined. A truthy \<open>search\<close>
  that is not a string has no \<open>toLowerCase\<close> method, and the call throws. The sort key
  \<open>a[sortField] || ''\<close> is the field itself, which is a string.
\<close>

definition default_to :: "string \<Rightarrow> jsval \<Rightarrow> jsval" where
  "default_to d v = (if v = JUndefined then JStr d else v)"

definition sortField :: "jsval \<Rightarrow> string" where
  "sortField sortv =
     (if array_includes [''createdAt'', ''startDate''] (default_to ''createdAt'' sortv)
      then str_of (default_to ''createdAt'' sortv) else ''createdAt'')"

definition sort_key :: "jsval \<Rightarrow> project \<Rightarrow> string" where
  "sort_key sortv p = (if sortField sortv = ''startDate'' then startDate p else createdAt p)"

definition compare_projects :: "jsval \<Rightarrow> jsval \<Rightarrow> project \<Rightarrow> project \<Rightarrow> int" where
  "compare_projects sortv orderv a b =
     (if sort_key sortv a < sort_key sortv b
      then (if default_to ''desc'' orderv = JStr ''asc'' then - 1 else 1)
      else if sort_key sortv a > sort_key sortv b
      then (if default_to ''desc'' orderv = JStr ''asc'' then 1 else - 1)
      else 0)"

definition status_filter :: "jsval \<Rightarrow> project list \<Rightarrow> project list" where
  "status_filter st result =
     (if truthy st then filter (\<lambda>p. JStr (status p) = st) result else result)"

definition search_filter :: "jsval \<Rightarrow> project list \<Rightarrow> error + project list" where
  "search_filter search result =
     (if truthy search then
        (if is_string search then
           Inr (filter (\<lambda>p. str_includes (toLowerCase (name p)) (toLowerCase (str_of search))
                          \<or> str_includes (toLowerCase (clientName p)) (toLowerCase (str_of search)))
                  result)
         else Inl TypeError)
      else Inr result)"

definition findAll :: "store \<Rightarrow> jsval \<Rightarrow> jsval \<Rightarrow> jsval \<Rightarrow> jsval \<Rightarrow> error + project list" where
  "findAll projects st search sortv orderv =
     (case search_filter search (status_filter st (filter (\<lambda>p. \<not> isDeleted p) projects)) of
        Inl e \<Rightarrow> Inl e
      | Inr result \<Rightarrow> Inr (map clone (Array_sort (compare_projects sortv orderv) result)))"

text \<open>
  \<open>update\<close> merges the given fields into the first record with the id and stamps
  \<open>updatedAt\<close> last. The \<open>updates\<close> object has any subset of the fields.
\<close>

record updates =
  set_name :: "string option"
  set_clientName :: "string option"
  set_status :: "string option"
  set_startDate :: "string option"
  set_endDate :: "string option option"
  set_project_id :: "string option"
  set_isDeleted :: "bool option"
  set_createdAt :: "string option"
  set_updatedAt :: "string option"

definition no_updates :: updates where
  "no_updates =
     \<lparr> set_name = None, set_clientName = None, set_status = None, set_startDate = None,
       set_endDate = None, set_project_id = None, set_isDeleted = None, set_createdAt = None,
       set_updatedAt = None \<rparr>"

definition or_old :: "'a option \<Rightarrow> 'a \<Rightarrow> 'a" where
  "or_old given old = (case given of Some v \<Rightarrow> v | None \<Rightarrow> old)"

definition merge :: "project \<Rightarrow> updates \<Rightarrow> string \<Rightarrow> project" where
  "merge p u now =
     \<lparr> name = or_old (set_name u) (name p),
       clientName = or_old (set_clientName u) (clientName p),
       status = or_old (set_status u) (status p),
       startDate = or_old (set_startDate u) (startDate p),
       endDate = or_old (set_endDate u) (endDate p),
       project_id = or_old (set_project_id u) (project_id p),
       isDeleted = or_old (set_isDeleted u) (isDeleted p),
       createdAt = or_old (set_createdAt u) (createdAt p),
       updatedAt = now \<rparr>"

fun findIndex :: "('a \<Rightarrow> bool) \<Rightarrow> 'a list \<Rightarrow> nat option" where
  "findIndex P [] = None"
| "findIndex P (x # xs) =
     (if P x then Some 0 else (case findIndex P xs of Some i \<Rightarrow> Some (Suc i) | None \<Rightarrow> None))"

definition update :: "string \<Rightarrow> store \<Rightarrow> string \<Rightarrow> updates \<Rightarrow> project option \<times> store" where
  "update now projects pid u =
     (case findIndex (\<lambda>p. project_id p = pid) projects of
        None \<Rightarrow> (None, projects)
      | Some index \<Rightarrow>
          (Some (clone (merge (projects ! index) u now)),
           projects[index := merge (projects ! index) u now]))"

definition clear :: "store \<Rightarrow> store" where
  "clear projects = []"

section \<open>The service\<close>

definition ALLOWED_TRANSITIONS :: "(string \<times> string list) list" where
  "ALLOWED_TRANSITIONS =
     [(''active'', [''on_hold'', ''completed'']),
      (''on_hold'', [''active'', ''completed'']),
      (''completed'', [])]"

text \<open>
  \<open>ALLOWED_TRANSITIONS[s]\<close> for a string that is not a key of the table is undefined,
  except for the names every object inherits: there the value is a function or an object,
  which is truthy and has no \<open>includes\<close> method, so that the test throws.
\<close>

definition Object_prototype_names :: "string list" where
  "Object_prototype_names =
     [''constructor'', ''__defineGetter__'', ''__defineSetter__'', ''hasOwnProperty'',
      ''__lookupGetter__'', ''__lookupSetter__'', ''isPrototypeOf'', ''propertyIsEnumerable'',
      ''toString'', ''valueOf'', ''__proto__'', ''toLocaleString'']"

definition not_found :: "string \<Rightarrow> error" where
  "not_found pid =
     AppError (''Project with id '' @ [CHR 0x27] @ pid @ [CHR 0x27] @ '' not found'')
       404 ''PROJECT_NOT_FOUND''"

definition invalid_transition :: "string \<Rightarrow> string \<Rightarrow> error" where
  "invalid_transition currentStatus newStatus =
     AppError (''Cannot transition from '' @ [CHR 0x27] @ currentStatus @ [CHR 0x27]
               @ '' to '' @ [CHR 0x27] @ newStatus @ [CHR 0x27])
       400 ''INVALID_STATUS_TRANSITION''"

definition createProject ::
  "date_parser \<Rightarrow> string \<Rightarrow> string \<Rightarrow> store \<Rightarrow> jsobj \<Rightarrow> (error + project) \<times> store" where
  "createProject parse now uuid projects body =
     (case validateCreateProject parse body of
        Inl e \<Rightarrow> (Inl e, projects)
      | Inr projectData \<Rightarrow>
          (Inr (fst (create now uuid projects projectData)),
           snd (create now uuid projects projectData)))"

definition listProjects :: "store \<Rightarrow> jsobj \<Rightarrow> error + project list" where
  "listProjects projects query =
     (if truthy (field query ''status'')
         \<and> \<not> array_includes [''active'', ''on_hold'', ''completed''] (field query ''status'')
      then Inl (AppError (''Invalid status filter: '' @ toString (field query ''status'')
                          @ ''. Must be one of: ''
                          @ join '', '' [''active'', ''on_hold'', ''completed''])
                  400 ''VALIDATION_ERROR'')
      else if truthy (field query ''sort'')
         \<and> \<not> array_includes [''createdAt'', ''startDate''] (field query ''sort'')
      then Inl (AppError (''Invalid sort field: '' @ toString (field query ''sort'')
                          @ ''. Must be one of: '' @ join '', '' [''createdAt'', ''startDate''])
                  400 ''VALIDATION_ERROR'')
      else if truthy (field query ''order'')
         \<and> \<not> array_includes [''asc'', ''desc''] (field query ''order'')
      then Inl (AppError (''Invalid order: '' @ toString (field query ''order'')
                          @ ''. Must be '' @ [CHR 0x27] @ ''asc'' @ [CHR 0x27] @ '' or ''
                          @ [CHR 0x27] @ ''desc'' @ [CHR 0x27])
                  400 ''VALIDATION_ERROR'')
      else findAll projects (field query ''status'') (field query ''search'')
             (field query ''sort'') (field query ''order''))"

definition getProjectById :: "store \<Rightarrow> string \<Rightarrow> error + project" where
  "getProjectById projects pid =
     (case findById projects pid of
        None \<Rightarrow> Inl (not_found pid)
      | Some p \<Rightarrow> if isDeleted p then Inl (not_found pid) else Inr p)"

text \<open>
  \<open>updateProjectStatus\<close> returns what \<open>update\<close> returns, which is a record or null; the
  result of a successful call is therefore an optional record.
\<close>

definition check_transition :: "string \<Rightarrow> string \<Rightarrow> error option" where
  "check_transition currentStatus newStatus =
     (case map_of ALLOWED_TRANSITIONS currentStatus of
        Some allowed \<Rightarrow>
          if newStatus \<in> set allowed then None
          else Some (invalid_transition currentStatus newStatus)
      | None \<Rightarrow>
          if currentStatus \<in> set Object_prototype_names then Some TypeError
          else Some (invalid_transition currentStatus newStatus))"

definition updateProjectStatus ::
  "string \<Rightarrow> store \<Rightarrow> string \<Rightarrow> jsobj \<Rightarrow> (error + project option) \<times> store" where
  "updateProjectStatus now projects pid body =
     (case validateStatusUpdate body of
        Inl e \<Rightarrow> (Inl e, projects)
      | Inr newStatus \<Rightarrow>
          (case getProjectById projects pid of
             Inl e \<Rightarrow> (Inl e, projects)
           | Inr p \<Rightarrow>
               if status p = newStatus then (Inr (Some p), projects)
               else (case check_transition (status p) newStatus of
                       Some e \<Rightarrow> (Inl e, projects)
                     | None \<Rightarrow>
                         (Inr (fst (update now projects pid (no_updates\<lparr>set_status := Some newStatus\<rparr>))),
                          snd (update now projects pid (no_updates\<lparr>set_status := Some newStatus\<rparr>))))))"

definition deleteProject :: "string \<Rightarrow> store \<Rightarrow> string \<Rightarrow> (error + unit) \<times> store" where
  "deleteProject now projects pid =
     (case getProjectById projects pid of
        Inl e \<Rightarrow> (Inl e, projects)
      | Inr p \<Rightarrow> (Inr (), snd (update now projects pid (no_updates\<lparr>set_isDeleted := Some True\<rparr>))))"

section \<open>Sequences of service operations\<close>

text \<open>
  One request to the service. A request that creates or changes a record carries the
  clock reading of its call, and a creation also the identifier drawn for it.
\<close>

datatype operation =
    Create jsobj string string
  | List jsobj
  | GetById string
  | UpdateStatus string jsobj string
  | Delete string string

datatype response =
    Threw error
  | One project
  | Updated "project option"
  | Many "project list"
  | NoContent

fun respond :: "('a \<Rightarrow> response) \<Rightarrow> error + 'a \<Rightarrow> response" where
  "respond f (Inl e) = Threw e"
| "respond f (Inr x) = f x"

fun step :: "date_parser \<Rightarrow> store \<Rightarrow> operation \<Rightarrow> response \<times> store" where
  "step parse projects (Create body now uuid) =
     (respond One (fst (createProject parse now uuid projects body)),
      snd (createProject parse now uuid projects body))"
| "step parse projects (List query) = (respond Many (listProjects projects query), projects)"
| "step parse projects (GetById pid) = (respond One (getProjectById projects pid), projects)"
| "step parse projects (UpdateStatus pid body now) =
     (respond Updated (fst (updateProjectStatus now projects pid body)),
      snd (updateProjectStatus now projects pid body))"
| "step parse projects (Delete pid now) =
     (respond (\<lambda>u. NoContent) (fst (deleteProject now projects pid)),
      snd (deleteProject now projects pid))"

text \<open>
  Running a sequence of requests gives, for each request in turn, its response and the
  store after it.
\<close>

fun run :: "date_parser \<Rightarrow> store \<Rightarrow> operation list \<Rightarrow> (response \<times> store) list" where
  "run parse projects [] = []"
| "run parse projects (op # ops) =
     step parse projects op # run parse (snd (step parse projects op)) ops"

text \<open>The records a response hands to the caller.\<close>

fun returned :: "response \<Rightarrow> project list" where
  "returned (Threw e) = []"
| "returned (One p) = [p]"
| "returned (Updated None) = []"
| "returned (Updated (Some p)) = [p]"
| "returned (Many ps) = ps"
| "returned NoContent = []"

text \<open>The identifiers drawn for the requests of a sequence.\<close>

fun drawn :: "operation \<Rightarrow> string list" where
  "drawn (Create body now uuid) = [uuid]"
| "drawn other = []"

section \<open>The specification's notions\<close>

text \<open>The transition table as the specification writes it.\<close>

definition spec_allowlist :: "string \<Rightarrow> string set" where
  "spec_allowlist cur =
     (if cur = ''active'' then {''on_hold'', ''completed''}
      else if cur = ''on_hold'' then {''active'', ''completed''}
      else {})"
















section \<open>Sample data\<close>

text \<open>The platform's date parser on three dates (milliseconds since 1970).\<close>

definition sample_parse :: date_parser where
  "sample_parse =
     map_of [(''2026-01-01'', 1767225600000), (''2026-01-15'', 1768435200000),
             (''2026-06-01'', 1780272000000)]"

definition sample_body :: jsobj where
  "sample_body =
     [(''name'', JStr ''W''), (''clientName'', JStr ''Acme''), (''startDate'', JStr ''2026-01-15'')]"



definition sample_project :: project where
  "sample_project =
     \<lparr> name = ''W'', clientName = ''Acme'', status = ''active'', startDate = ''2026-01-15'',
       endDate = None, project_id = ''id-1'', isDeleted = False,
       createdAt = ''2026-01-02T10:00:00.000Z'', updatedAt = ''2026-01-02T10:00:00.000Z'' \<rparr>"

definition sample_other :: project where
  "sample_other =
     \<lparr> name = ''Bridge'', clientName = ''Zenith'', status = ''completed'',
       startDate = ''2026-01-01'', endDate = None, project_id = ''id-2'', isDeleted = False,
       createdAt = ''2026-01-03T10:00:00.000Z'', updatedAt = ''2026-01-03T10:00:00.000Z'' \<rparr>"

text \<open>A deleted record whose name would match a search for the client of the first.\<close>

definition sample_deleted :: project where
  "sample_deleted =
     \<lparr> name = ''ACME portal'', clientName = ''Initech'', status = ''active'',
       startDate = ''2026-01-15'', endDate = None, project_id = ''id-3'', isDeleted = True,
       createdAt = ''2026-01-04T10:00:00.000Z'', updatedAt = ''2026-01-05T10:00:00.000Z'' \<rparr>"

text \<open>A later record that starts on the day the first one starts.\<close>

definition sample_tie :: project where
  "sample_tie =
     \<lparr> name = ''Canal'', clientName = ''Umbra'', status = ''on_hold'',
       startDate = ''2026-01-15'', endDate = None, project_id = ''id-4'', isDeleted = False,
       createdAt = ''2026-01-06T10:00:00.000Z'', updatedAt = ''2026-01-06T10:00:00.000Z'' \<rparr>"

text \<open>
  Requests against a store that holds a deleted record: a lookup of it, a status change of
  it, a second delete of it, and a creation.
\<close>

definition sample_requests :: "operation list" where
  "sample_requests =
     [GetById ''id-3'',
      UpdateStatus ''id-3'' [(''status'', JStr ''on_hold'')] ''2026-02-01T00:00:00.000Z'',
      Delete ''id-3'' ''2026-02-02T00:00:00.000Z'',
      Create sample_body ''2026-02-03T00:00:00.000Z'' ''id-9'']"

definition sample_created :: project where
  "sample_created =
     \<lparr> name = ''W'', clientName = ''Acme'', status = ''active'', startDate = ''2026-01-15'',
       endDate = None, project_id = ''id-9'', isDeleted = False,
       createdAt = ''2026-02-03T00:00:00.000Z'', updatedAt = ''2026-02-03T00:00:00.000Z'' \<rparr>"

section \<open>Facts about the store and the validators\<close>

lemma merge_status:
  "merge p (no_updates\<lparr>set_status := Some new\<rparr>) now = p\<lparr>status := new, updatedAt := now\<rparr>"
  by (simp add: merge_def or_old_def no_updates_def)

lemma findById_index:
  "findById s pid = Some p \<Longrightarrow>
   \<exists>i. findIndex (\<lambda>q. project_id q = pid) s = Some i \<and> i < length s \<and> s ! i = p \<and> project_id p = pid
       \<and> (\<forall>j<i. project_id (s ! j) \<noteq> pid)"
proof (induction s)
  case Nil
  then show ?case by (simp add: findById_def)
next
  case (Cons a s)
  show ?case
  proof (cases "project_id a = pid")
    case True
    with Cons.prems show ?thesis by (simp add: findById_def clone_def)
  next
    case False
    with Cons.prems have "findById s pid = Some p" by (simp add: findById_def)
    from Cons.IH[OF this] obtain i where
      i: "findIndex (\<lambda>q. project_id q = pid) s = Some i" "i < length s" "s ! i = p" "project_id p = pid"
         "\<forall>j<i. project_id (s ! j) \<noteq> pid" by blast
    have "\<forall>j<Suc i. project_id ((a # s) ! j) \<noteq> pid"
      using False i(5) by (auto simp: less_Suc_eq_0_disj)
    with i False show ?thesis by simp
  qed
qed

lemma validateStatusUpdate_valid:
  "newStatus \<in> set VALID_STATUSES \<Longrightarrow> field body ''status'' = JStr newStatus \<Longrightarrow>
   validateStatusUpdate body = Inr newStatus"
  by (auto simp: validateStatusUpdate_def VALID_STATUSES_def)

lemma validateStatusUpdate_Inr:
  "validateStatusUpdate body = Inr newStatus \<Longrightarrow>
   newStatus \<in> set VALID_STATUSES \<and> field body ''status'' = JStr newStatus"
  by (cases "field body ''status''") (auto simp: validateStatusUpdate_def split: if_splits)

lemma getProjectById_Inr:
  "getProjectById s pid = Inr p \<longleftrightarrow> findById s pid = Some p \<and> \<not> isDeleted p"
  by (auto simp: getProjectById_def split: option.splits)

lemma check_transition_valid:
  "cur \<in> set VALID_STATUSES \<Longrightarrow> new \<in> set VALID_STATUSES \<Longrightarrow> new \<noteq> cur \<Longrightarrow>
   check_transition cur new =
     (if new \<in> spec_allowlist cur then None else Some (invalid_transition cur new))"
  by (auto simp: check_transition_def VALID_STATUSES_def ALLOWED_TRANSITIONS_def spec_allowlist_def)

lemma check_transition_completed:
  "check_transition ''completed'' new \<noteq> None"
  by (simp add: check_transition_def ALLOWED_TRANSITIONS_def)

lemma update_found:
  "findIndex (\<lambda>q. project_id q = pid) s = Some i \<Longrightarrow>
   update now s pid u = (Some (merge (s ! i) u now), s[i := merge (s ! i) u now])"
  by (simp add: update_def clone_def)

section \<open>The status state machine\<close>

lemma completed_is_terminal:
  assumes "k < length s" and "status (s ! k) = ''completed''"
  shows "length (snd (updateProjectStatus now s pid body)) = length s
       \<and> snd (updateProjectStatus now s pid body) ! k = s ! k"
proof (cases "validateStatusUpdate body")
  case (Inl e)
  then show ?thesis by (simp add: updateProjectStatus_def)
next
  case (Inr newStatus)
  show ?thesis
  proof (cases "getProjectById s pid")
    case (Inl e)
    with Inr show ?thesis by (simp add: updateProjectStatus_def)
  next
    case (Inr p)
    then have "findById s pid = Some p" by (simp add: getProjectById_Inr)
    from findById_index[OF this] obtain i where
      i: "findIndex (\<lambda>q. project_id q = pid) s = Some i" "i < length s" "s ! i = p" by blast
    show ?thesis
    proof (cases "status p = newStatus \<or> check_transition (status p) newStatus \<noteq> None")
      case True
      with Inr \<open>validateStatusUpdate body = Inr newStatus\<close> show ?thesis
        by (auto simp: updateProjectStatus_def)
    next
      case False
      then have "status p \<noteq> ''completed''"
        using check_transition_completed[of newStatus] by (cases "status p = ''completed''") simp_all
      with assms i have "i \<noteq> k" by auto
      with False Inr \<open>validateStatusUpdate body = Inr newStatus\<close> i show ?thesis
        by (auto simp: updateProjectStatus_def update_found)
    qed
  qed
qed

text \<open>
  Claim C1. Take a stored record that is not deleted and whose status is one of the three
  values (which every record the service stores has), and a requested status, also one of
  the three, that differs from the current one. When the requested status is in the
  allowlist entry of the current status, \<open>updateProjectStatus\<close> succeeds: it returns the
  record with the new status and the new \<open>updatedAt\<close>, and stores it in the place of the
  old one. Otherwise it fails with the \<open>INVALID_STATUS_TRANSITION\<close> error, whose message
  quotes the current and the requested status, and the store is as before. And whatever
  the request, a record whose status is \<open>completed\<close> is left as it is.
\<close>

theorem updateProjectStatus_allowlist:
  assumes "findById projects pid = Some p" and "\<not> isDeleted p"
    and "status p \<in> set VALID_STATUSES"
    and "newStatus \<in> set VALID_STATUSES" and "newStatus \<noteq> status p"
    and "field body ''status'' = JStr newStatus"
  shows "(newStatus \<in> spec_allowlist (status p) \<longrightarrow>
            (\<exists>i<length projects. projects ! i = p \<and>
               updateProjectStatus now projects pid body =
                 (Inr (Some (p\<lparr>status := newStatus, updatedAt := now\<rparr>)),
                  projects[i := p\<lparr>status := newStatus, updatedAt := now\<rparr>])))
       \<and> (newStatus \<notin> spec_allowlist (status p) \<longrightarrow>
            updateProjectStatus now projects pid body =
              (Inl (AppError (''Cannot transition from '' @ [CHR 0x27] @ status p @ [CHR 0x27]
                              @ '' to '' @ [CHR 0x27] @ newStatus @ [CHR 0x27])
                      400 ''INVALID_STATUS_TRANSITION''),
               projects))
       \<and> (\<forall>k<length projects. status (projects ! k) = ''completed'' \<longrightarrow>
            (\<forall>now' pid' body'.
               length (snd (updateProjectStatus now' projects pid' body')) = length projects
               \<and> snd (updateProjectStatus now' projects pid' body') ! k = projects ! k))"
proof -
  from findById_index[OF assms(1)] obtain i where
    i: "findIndex (\<lambda>q. project_id q = pid) projects = Some i" "i < length projects"
       "projects ! i = p" by blast
  have v: "validateStatusUpdate body = Inr newStatus"
    using assms(4,6) by (rule validateStatusUpdate_valid)
  have g: "getProjectById projects pid = Inr p"
    using assms(1,2) by (simp add: getProjectById_Inr)
  have c: "check_transition (status p) newStatus =
     (if newStatus \<in> spec_allowlist (status p) then None
      else Some (invalid_transition (status p) newStatus))"
    using assms(3,4,5) by (rule check_transition_valid)
  have ok: "newStatus \<in> spec_allowlist (status p) \<Longrightarrow>
      updateProjectStatus now projects pid body =
        (Inr (Some (p\<lparr>status := newStatus, updatedAt := now\<rparr>)),
         projects[i := p\<lparr>status := newStatus, updatedAt := now\<rparr>])"
    using v g c i assms(5) by (simp add: updateProjectStatus_def update_found merge_status)
  have bad: "newStatus \<notin> spec_allowlist (status p) \<Longrightarrow>
      updateProjectStatus now projects pid body =
        (Inl (invalid_transition (status p) newStatus), projects)"
    using v g c assms(5) by (simp add: updateProjectStatus_def)
  show ?thesis
    using ok bad i completed_is_terminal by (auto simp: invalid_transition_def)
qed

lemma sample_find1: "findById [sample_project, sample_other] ''id-1'' = Some sample_project"
  by (simp add: findById_def clone_def sample_project_def sample_other_def)

lemma sample_find2: "findById [sample_project, sample_other] ''id-2'' = Some sample_other"
  by (simp add: findById_def clone_def sample_project_def sample_other_def)

theorem updateProjectStatus_allowlist_witness:
  "findById [sample_project, sample_other] ''id-1'' = Some sample_project
   \<and> \<not> isDeleted sample_project
   \<and> status sample_project \<in> set VALID_STATUSES
   \<and> ''on_hold'' \<in> set VALID_STATUSES \<and> ''on_hold'' \<noteq> status sample_project
   \<and> ''on_hold'' \<in> spec_allowlist (status sample_project)
   \<and> fst (updateProjectStatus ''2026-02-01T00:00:00.000Z'' [sample_project, sample_other] ''id-1''
        [(''status'', JStr ''on_hold'')])
      = Inr (Some (sample_project\<lparr>status := ''on_hold'', updatedAt := ''2026-02-01T00:00:00.000Z''\<rparr>))
   \<and> findById [sample_project, sample_other] ''id-2'' = Some sample_other
   \<and> ''active'' \<notin> spec_allowlist (status sample_other)
   \<and> updateProjectStatus ''2026-02-01T00:00:00.000Z'' [sample_project, sample_other] ''id-2''
        [(''status'', JStr ''active'')]
      = (Inl (AppError (''Cannot transition from '' @ [CHR 0x27] @ ''completed'' @ [CHR 0x27]
                              @ '' to '' @ [CHR 0x27] @ ''active'' @ [CHR 0x27])
                 400 ''INVALID_STATUS_TRANSITION''),
         [sample_project, sample_other])
   \<and> status ([sample_project, sample_other] ! 1) = ''completed''
   \<and> snd (updateProjectStatus ''2026-02-01T00:00:00.000Z'' [sample_project, sample_other] ''id-2''
        [(''status'', JStr ''on_hold'')]) ! 1 = sample_other"
proof -
  have a: "\<not> isDeleted sample_project" "status sample_project \<in> set VALID_STATUSES"
    "''on_hold'' \<in> set VALID_STATUSES" "''on_hold'' \<noteq> status sample_project"
    "field [(''status'', JStr ''on_hold'')] ''status'' = JStr ''on_hold''"
    "''on_hold'' \<in> spec_allowlist (status sample_project)"
    by (simp_all add: sample_project_def VALID_STATUSES_def field_def spec_allowlist_def)
  have b: "\<not> isDeleted sample_other" "status sample_other \<in> set VALID_STATUSES"
    "''active'' \<in> set VALID_STATUSES" "''active'' \<noteq> status sample_other"
    "field [(''status'', JStr ''active'')] ''status'' = JStr ''active''"
    "''active'' \<notin> spec_allowlist (status sample_other)"
    "status sample_other = ''completed''"
    by (simp_all add: sample_other_def VALID_STATUSES_def field_def spec_allowlist_def)
  note t1 = updateProjectStatus_allowlist[OF sample_find1 a(1-5), of "''2026-02-01T00:00:00.000Z''"]
  note t2 = updateProjectStatus_allowlist[OF sample_find2 b(1-5), of "''2026-02-01T00:00:00.000Z''"]
  from t1 a(6) have r1: "fst (updateProjectStatus ''2026-02-01T00:00:00.000Z'' [sample_project, sample_other] ''id-1''
        [(''status'', JStr ''on_hold'')])
      = Inr (Some (sample_project\<lparr>status := ''on_hold'', updatedAt := ''2026-02-01T00:00:00.000Z''\<rparr>))"
    by auto
  from t2 b(6,7) have r2: "updateProjectStatus ''2026-02-01T00:00:00.000Z'' [sample_project, sample_other] ''id-2''
        [(''status'', JStr ''active'')]
      = (Inl (AppError (''Cannot transition from '' @ [CHR 0x27] @ ''completed'' @ [CHR 0x27]
                              @ '' to '' @ [CHR 0x27] @ ''active'' @ [CHR 0x27])
                 400 ''INVALID_STATUS_TRANSITION''),
         [sample_project, sample_other])"
    by simp
  from t2 b(7) have r3: "snd (updateProjectStatus ''2026-02-01T00:00:00.000Z'' [sample_project, sample_other] ''id-2''
        [(''status'', JStr ''on_hold'')]) ! 1 = sample_other"
    by simp
  show ?thesis using sample_find1 sample_find2 a b r1 r2 r3 by simp
qed

text \<open>
  Claim C4. For a stored record that is not deleted (its status one of the three values,
  as for every record the service stores), a request for the status the record already
  has succeeds, returns the record as it is stored, with the same \<open>updatedAt\<close>, and leaves
  the store as it was.
\<close>

theorem same_status_is_noop:
  assumes "findById projects pid = Some p" and "\<not> isDeleted p"
    and "status p \<in> set VALID_STATUSES"
    and "field body ''status'' = JStr (status p)"
  shows "updateProjectStatus now projects pid body = (Inr (Some p), projects)"
proof -
  have "validateStatusUpdate body = Inr (status p)"
    using assms(3,4) by (rule validateStatusUpdate_valid)
  moreover have "getProjectById projects pid = Inr p"
    using assms(1,2) by (simp add: getProjectById_Inr)
  ultimately show ?thesis by (simp add: updateProjectStatus_def)
qed

theorem same_status_is_noop_witness:
  "findById [sample_project, sample_other] ''id-2'' = Some sample_other
   \<and> \<not> isDeleted sample_other
   \<and> status sample_other \<in> set VALID_STATUSES
   \<and> field [(''status'', JStr ''completed'')] ''status'' = JStr (status sample_other)
   \<and> updateProjectStatus ''2026-02-01T00:00:00.000Z'' [sample_project, sample_other] ''id-2''
        [(''status'', JStr ''completed'')] = (Inr (Some sample_other), [sample_project, sample_other])"
proof -
  have a: "\<not> isDeleted sample_other" "status sample_other \<in> set VALID_STATUSES"
    "field [(''status'', JStr ''completed'')] ''status'' = JStr (status sample_other)"
    by (simp_all add: sample_other_def VALID_STATUSES_def field_def)
  from same_status_is_noop[OF sample_find2 a, of "''2026-02-01T00:00:00.000Z''"] sample_find2 a
  show ?thesis by simp
qed

section \<open>Validation comes before the lookup\<close>

lemma validateStatusUpdate_invalid:
  "field body ''status'' \<notin> JStr ` set VALID_STATUSES \<Longrightarrow>
   validateStatusUpdate body =
     Inl (AppError ''status is required and must be one of: active, on_hold, completed''
            400 ''VALIDATION_ERROR'')"
  by (cases "field body ''status''") (auto simp: validateStatusUpdate_def VALID_STATUSES_def)

text \<open>
  Claim C10. When the status of the body is missing or is not one of the three values,
  \<open>updateProjectStatus\<close> fails with the \<open>VALIDATION_ERROR\<close> error for every id, whether the
  id resolves to a record, to a deleted record or to none; the store is unchanged.
\<close>

theorem validation_precedes_lookup:
  assumes "field body ''status'' \<notin> JStr ` set VALID_STATUSES"
  shows "updateProjectStatus now projects pid body =
           (Inl (AppError ''status is required and must be one of: active, on_hold, completed''
                   400 ''VALIDATION_ERROR''),
            projects)"
  using validateStatusUpdate_invalid[OF assms] by (simp add: updateProjectStatus_def)

theorem validation_precedes_lookup_witness:
  "field [(''status'', JStr ''archived'')] ''status'' \<notin> JStr ` set VALID_STATUSES
   \<and> getProjectById [sample_project\<lparr>isDeleted := True\<rparr>] ''id-1''
       = Inl (AppError (''Project with id '' @ [CHR 0x27] @ ''id-1'' @ [CHR 0x27] @ '' not found'')
                404 ''PROJECT_NOT_FOUND'')
   \<and> updateProjectStatus ''2026-02-01T00:00:00.000Z'' [sample_project\<lparr>isDeleted := True\<rparr>] ''id-1''
        [(''status'', JStr ''archived'')]
       = (Inl (AppError ''status is required and must be one of: active, on_hold, completed''
                 400 ''VALIDATION_ERROR''),
          [sample_project\<lparr>isDeleted := True\<rparr>])
   \<and> field [] ''status'' \<notin> JStr ` set VALID_STATUSES
   \<and> getProjectById [] ''no-such-id''
       = Inl (AppError (''Project with id '' @ [CHR 0x27] @ ''no-such-id'' @ [CHR 0x27] @ '' not found'')
                404 ''PROJECT_NOT_FOUND'')
   \<and> updateProjectStatus ''2026-02-01T00:00:00.000Z'' [] ''no-such-id'' []
       = (Inl (AppError ''status is required and must be one of: active, on_hold, completed''
                 400 ''VALIDATION_ERROR''),
          [])"
proof -
  have a: "field [(''status'', JStr ''archived'')] ''status'' \<notin> JStr ` set VALID_STATUSES"
    by (simp add: field_def VALID_STATUSES_def image_iff)
  have b: "field [] ''status'' \<notin> JStr ` set VALID_STATUSES"
    by (simp add: field_def VALID_STATUSES_def image_iff)
  have g1: "getProjectById [sample_project\<lparr>isDeleted := True\<rparr>] ''id-1''
       = Inl (AppError (''Project with id '' @ [CHR 0x27] @ ''id-1'' @ [CHR 0x27] @ '' not found'')
                404 ''PROJECT_NOT_FOUND'')"
    by (simp add: getProjectById_def findById_def clone_def sample_project_def not_found_def)
  have g2: "getProjectById [] ''no-such-id''
       = Inl (AppError (''Project with id '' @ [CHR 0x27] @ ''no-such-id'' @ [CHR 0x27] @ '' not found'')
                404 ''PROJECT_NOT_FOUND'')"
    by (simp add: getProjectById_def findById_def not_found_def)
  from validation_precedes_lookup[OF a] validation_precedes_lookup[OF b] a b g1 g2
  show ?thesis by simp
qed

section \<open>Soft delete\<close>

lemma merge_isDeleted:
  "merge p (no_updates\<lparr>set_isDeleted := Some True\<rparr>) now = p\<lparr>isDeleted := True, updatedAt := now\<rparr>"
  by (simp add: merge_def or_old_def no_updates_def)

lemma findById_None: "findById s pid = None \<longleftrightarrow> (\<forall>p \<in> set s. project_id p \<noteq> pid)"
  by (induction s) (auto simp: findById_def)

lemma findById_distinct:
  "distinct (map project_id s) \<Longrightarrow> p \<in> set s \<Longrightarrow> findById s (project_id p) = Some p"
  by (induction s) (auto simp: findById_def clone_def)

lemma getProjectById_cases:
  "getProjectById s pid = Inl (not_found pid) \<or> (\<exists>p. getProjectById s pid = Inr p)"
  by (auto simp: getProjectById_def split: option.splits)

lemma live_record_iff:
  assumes "distinct (map project_id s)"
  shows "(\<exists>p. getProjectById s pid = Inr p) \<longleftrightarrow> (\<exists>p \<in> set s. project_id p = pid \<and> \<not> isDeleted p)"
proof
  assume "\<exists>p. getProjectById s pid = Inr p"
  then obtain p where "findById s pid = Some p" "\<not> isDeleted p" by (auto simp: getProjectById_Inr)
  with findById_index[of s pid p] show "\<exists>p \<in> set s. project_id p = pid \<and> \<not> isDeleted p"
    by (metis nth_mem)
next
  assume "\<exists>p \<in> set s. project_id p = pid \<and> \<not> isDeleted p"
  then obtain p where "p \<in> set s" "project_id p = pid" "\<not> isDeleted p" by blast
  with findById_distinct[OF assms, of p] show "\<exists>p. getProjectById s pid = Inr p"
    by (auto simp: getProjectById_Inr)
qed

lemma deleteProject_found:
  assumes "findById s pid = Some p" and "\<not> isDeleted p"
  shows "\<exists>i<length s. s ! i = p \<and>
           deleteProject now s pid = (Inr (), s[i := p\<lparr>isDeleted := True, updatedAt := now\<rparr>])
         \<and> getProjectById (s[i := p\<lparr>isDeleted := True, updatedAt := now\<rparr>]) pid = Inl (not_found pid)"
proof -
  from findById_index[OF assms(1)] obtain i where
    i: "findIndex (\<lambda>q. project_id q = pid) s = Some i" "i < length s" "s ! i = p"
       "project_id p = pid" "\<forall>j<i. project_id (s ! j) \<noteq> pid" by blast
  have g: "getProjectById s pid = Inr p" using assms by (simp add: getProjectById_Inr)
  have d: "deleteProject now s pid = (Inr (), s[i := p\<lparr>isDeleted := True, updatedAt := now\<rparr>])"
    using g i by (simp add: deleteProject_def update_found merge_isDeleted)
  let ?s' = "s[i := p\<lparr>isDeleted := True, updatedAt := now\<rparr>]"
  have "find (\<lambda>q. project_id q = pid) ?s' = Some (p\<lparr>isDeleted := True, updatedAt := now\<rparr>)"
    using i by (auto simp: find_Some_iff nth_list_update intro!: exI[of _ i])
  then have "getProjectById ?s' pid = Inl (not_found pid)"
    by (simp add: getProjectById_def findById_def clone_def)
  with d i show ?thesis by blast
qed

text \<open>
  Claim C5. In a store whose records have distinct ids, \<open>deleteProject\<close> succeeds exactly
  when a record with the id exists and is not deleted. On success the record stays in its
  place in the store with \<open>isDeleted\<close> set (and \<open>updatedAt\<close> stamped by the store's update);
  nothing is removed, and a second delete of the same id fails with the
  \<open>PROJECT_NOT_FOUND\<close> error. For an absent id or a deleted record the call fails with that
  error and the store is unchanged.
\<close>

theorem deleteProject_semantics:
  assumes "distinct (map project_id projects)"
  shows "((\<exists>p \<in> set projects. project_id p = pid \<and> \<not> isDeleted p) \<longrightarrow>
            (\<exists>i<length projects. project_id (projects ! i) = pid \<and> \<not> isDeleted (projects ! i) \<and>
               deleteProject now projects pid =
                 (Inr (), projects[i := (projects ! i)\<lparr>isDeleted := True, updatedAt := now\<rparr>]) \<and>
               deleteProject now' (snd (deleteProject now projects pid)) pid =
                 (Inl (AppError (''Project with id '' @ [CHR 0x27] @ pid @ [CHR 0x27] @ '' not found'')
                         404 ''PROJECT_NOT_FOUND''),
                  snd (deleteProject now projects pid))))
       \<and> (\<not> (\<exists>p \<in> set projects. project_id p = pid \<and> \<not> isDeleted p) \<longrightarrow>
            deleteProject now projects pid =
              (Inl (AppError (''Project with id '' @ [CHR 0x27] @ pid @ [CHR 0x27] @ '' not found'')
                      404 ''PROJECT_NOT_FOUND''),
               projects))"
proof (cases "\<exists>p. getProjectById projects pid = Inr p")
  case True
  then obtain p where p: "findById projects pid = Some p" "\<not> isDeleted p"
    by (auto simp: getProjectById_Inr)
  from deleteProject_found[OF p, of now] obtain i where
    i: "i < length projects" "projects ! i = p"
       "deleteProject now projects pid = (Inr (), projects[i := p\<lparr>isDeleted := True, updatedAt := now\<rparr>])"
       "getProjectById (projects[i := p\<lparr>isDeleted := True, updatedAt := now\<rparr>]) pid = Inl (not_found pid)"
    by blast
  have "project_id p = pid" using findById_index[OF p(1)] by blast
  moreover have "deleteProject now' (snd (deleteProject now projects pid)) pid =
       (Inl (not_found pid), snd (deleteProject now projects pid))"
    using i(3,4) by (simp add: deleteProject_def)
  ultimately show ?thesis
    using True i p(2) live_record_iff[OF assms, of pid]
    by (auto simp: not_found_def)
next
  case False
  then have "getProjectById projects pid = Inl (not_found pid)"
    using getProjectById_cases[of projects pid] by blast
  then have "deleteProject now projects pid = (Inl (not_found pid), projects)"
    by (simp add: deleteProject_def)
  with False live_record_iff[OF assms, of pid] show ?thesis
    by (simp add: not_found_def)
qed


theorem deleteProject_semantics_witness:
  "distinct (map project_id [sample_project, sample_other])
   \<and> (\<exists>p \<in> set [sample_project, sample_other]. project_id p = ''id-1'' \<and> \<not> isDeleted p)
   \<and> deleteProject ''2026-02-01T00:00:00.000Z'' [sample_project, sample_other] ''id-1''
       = (Inr (), [sample_project\<lparr>isDeleted := True, updatedAt := ''2026-02-01T00:00:00.000Z''\<rparr>,
                   sample_other])
   \<and> deleteProject ''2026-02-02T00:00:00.000Z''
         [sample_project\<lparr>isDeleted := True, updatedAt := ''2026-02-01T00:00:00.000Z''\<rparr>, sample_other]
         ''id-1''
       = (Inl (AppError (''Project with id '' @ [CHR 0x27] @ ''id-1'' @ [CHR 0x27] @ '' not found'')
                 404 ''PROJECT_NOT_FOUND''),
          [sample_project\<lparr>isDeleted := True, updatedAt := ''2026-02-01T00:00:00.000Z''\<rparr>, sample_other])
   \<and> \<not> (\<exists>p \<in> set [sample_project, sample_other]. project_id p = ''id-9'' \<and> \<not> isDeleted p)
   \<and> deleteProject ''2026-02-01T00:00:00.000Z'' [sample_project, sample_other] ''id-9''
       = (Inl (AppError (''Project with id '' @ [CHR 0x27] @ ''id-9'' @ [CHR 0x27] @ '' not found'')
                 404 ''PROJECT_NOT_FOUND''),
          [sample_project, sample_other])"
proof -
  have d: "distinct (map project_id [sample_project, sample_other])"
    by (simp add: sample_project_def sample_other_def)
  have live: "\<exists>p \<in> set [sample_project, sample_other]. project_id p = ''id-1'' \<and> \<not> isDeleted p"
    by (simp add: sample_project_def)
  have none: "\<not> (\<exists>p \<in> set [sample_project, sample_other]. project_id p = ''id-9'' \<and> \<not> isDeleted p)"
    by (simp add: sample_project_def sample_other_def)
  note t1 = deleteProject_semantics[OF d, of "''id-1''" "''2026-02-01T00:00:00.000Z''"
      "''2026-02-02T00:00:00.000Z''"]
  note t2 = deleteProject_semantics[OF d, of "''id-9''" "''2026-02-01T00:00:00.000Z''"
      "''2026-02-02T00:00:00.000Z''"]
  from t1 live obtain i where i: "i < length [sample_project, sample_other]"
    "project_id ([sample_project, sample_other] ! i) = ''id-1''"
    "deleteProject ''2026-02-01T00:00:00.000Z'' [sample_project, sample_other] ''id-1'' =
       (Inr (), [sample_project, sample_other]
          [i := ([sample_project, sample_other] ! i)\<lparr>isDeleted := True,
                   updatedAt := ''2026-02-01T00:00:00.000Z''\<rparr>])"
    "deleteProject ''2026-02-02T00:00:00.000Z''
       (snd (deleteProject ''2026-02-01T00:00:00.000Z'' [sample_project, sample_other] ''id-1'')) ''id-1'' =
       (Inl (AppError (''Project with id '' @ [CHR 0x27] @ ''id-1'' @ [CHR 0x27] @ '' not found'')
               404 ''PROJECT_NOT_FOUND''),
        snd (deleteProject ''2026-02-01T00:00:00.000Z'' [sample_project, sample_other] ''id-1''))"
    by blast
  have "i = 0" using i(1,2) by (cases i) (simp_all add: sample_other_def)
  with i(3,4) have r1:
    "deleteProject ''2026-02-01T00:00:00.000Z'' [sample_project, sample_other] ''id-1''
       = (Inr (), [sample_project\<lparr>isDeleted := True, updatedAt := ''2026-02-01T00:00:00.000Z''\<rparr>,
                   sample_other])"
    and r2: "deleteProject ''2026-02-02T00:00:00.000Z''
         [sample_project\<lparr>isDeleted := True, updatedAt := ''2026-02-01T00:00:00.000Z''\<rparr>, sample_other]
         ''id-1''
       = (Inl (AppError (''Project with id '' @ [CHR 0x27] @ ''id-1'' @ [CHR 0x27] @ '' not found'')
                 404 ''PROJECT_NOT_FOUND''),
          [sample_project\<lparr>isDeleted := True, updatedAt := ''2026-02-01T00:00:00.000Z''\<rparr>, sample_other])"
    by simp_all
  from t2 none have r3:
    "deleteProject ''2026-02-01T00:00:00.000Z'' [sample_project, sample_other] ''id-9''
       = (Inl (AppError (''Project with id '' @ [CHR 0x27] @ ''id-9'' @ [CHR 0x27] @ '' not found'')
                 404 ''PROJECT_NOT_FOUND''),
          [sample_project, sample_other])"
    by blast
  from d live none r1 r2 r3 show ?thesis by blast
qed

section \<open>Creation\<close>

lemma validateCreateProject_status:
  assumes "validateCreateProject parse body = Inr d"
  shows "(field body ''status'' = JUndefined \<and> status d = ''active'')
       \<or> (field body ''status'' = JStr (status d) \<and> status d \<in> set VALID_STATUSES)"
proof -
  from assms have e: "status_errors body = []" and
    d: "status d = (if truthy (field body ''status'') then str_of (field body ''status'') else ''active'')"
    by (auto simp: validateCreateProject_def create_errors_def split: if_splits)
  from e have "field body ''status'' = JUndefined \<or> array_includes VALID_STATUSES (field body ''status'')"
    by (auto simp: status_errors_def split: if_splits)
  then show ?thesis
  proof
    assume "field body ''status'' = JUndefined"
    with d show ?thesis by simp
  next
    assume "array_includes VALID_STATUSES (field body ''status'')"
    then obtain s where "field body ''status'' = JStr s" "s \<in> set VALID_STATUSES"
      by (cases "field body ''status''") auto
    with d show ?thesis by (auto simp: VALID_STATUSES_def)
  qed
qed

text \<open>
  Claim C6. When the body passes create validation, \<open>createProject\<close> returns a record and
  appends it to the store. The record has \<open>isDeleted = false\<close>, \<open>createdAt\<close> and
  \<open>updatedAt\<close> both equal to the clock reading of the call, the identifier drawn for this
  call as its id (so that ids stay distinct when the drawn identifier is not in use), and
  as its status the status of the body, or \<open>active\<close> when the body has none.
\<close>

theorem createProject_postcondition:
  assumes "validateCreateProject parse body = Inr d"
  shows "\<exists>p. createProject parse now uuid projects body = (Inr p, projects @ [p])
           \<and> isDeleted p = False
           \<and> createdAt p = updatedAt p \<and> createdAt p = now
           \<and> project_id p = uuid
           \<and> (field body ''status'' = JUndefined \<and> status p = ''active''
              \<or> field body ''status'' = JStr (status p) \<and> status p \<in> set VALID_STATUSES)
           \<and> (distinct (map project_id projects) \<and> uuid \<notin> set (map project_id projects)
                \<longrightarrow> distinct (map project_id (projects @ [p])))"
proof -
  from validateCreateProject_status[OF assms]
  have s: "(field body ''status'' = JUndefined \<and> status d = ''active'')
       \<or> (field body ''status'' = JStr (status d) \<and> status d \<in> set VALID_STATUSES)" .
  then have ne: "status d \<noteq> []" by (auto simp: VALID_STATUSES_def)
  have c: "createProject parse now uuid projects body =
      (Inr (new_project now uuid d), projects @ [new_project now uuid d])"
    using assms by (simp add: createProject_def create_def clone_def)
  have "status (new_project now uuid d) = status d" using ne by (simp add: new_project_def)
  with s c show ?thesis by (auto simp: new_project_def)
qed


lemma sample_body_valid:
  "validateCreateProject sample_parse sample_body =
     Inr \<lparr> name = ''W'', clientName = ''Acme'', status = ''active'', startDate = ''2026-01-15'',
           endDate = None \<rparr>"
  by (simp add: validateCreateProject_def create_errors_def name_errors_def clientName_errors_def
      status_errors_def startDate_errors_def endDate_errors_def sample_body_def sample_parse_def
      field_def trim_def is_space_def)

theorem createProject_postcondition_witness:
  "validateCreateProject sample_parse sample_body =
     Inr \<lparr> name = ''W'', clientName = ''Acme'', status = ''active'', startDate = ''2026-01-15'',
           endDate = None \<rparr>
   \<and> createProject sample_parse ''2026-01-02T10:00:00.000Z'' ''id-1'' [] sample_body
       = (Inr sample_project, [sample_project])
   \<and> isDeleted sample_project = False
   \<and> createdAt sample_project = updatedAt sample_project
   \<and> project_id sample_project = ''id-1''
   \<and> field sample_body ''status'' = JUndefined \<and> status sample_project = ''active''
   \<and> distinct (map project_id [sample_project])"
proof -
  from createProject_postcondition[OF sample_body_valid, of "''2026-01-02T10:00:00.000Z''" "''id-1''" "[]"]
  obtain p where p: "createProject sample_parse ''2026-01-02T10:00:00.000Z'' ''id-1'' [] sample_body
       = (Inr p, [] @ [p])" "isDeleted p = False" "createdAt p = updatedAt p"
       "project_id p = ''id-1''"
       "field sample_body ''status'' = JUndefined \<and> status p = ''active''
        \<or> field sample_body ''status'' = JStr (status p) \<and> status p \<in> set VALID_STATUSES"
       "distinct (map project_id ([] @ [p]))"
    by auto
  have "createProject sample_parse ''2026-01-02T10:00:00.000Z'' ''id-1'' [] sample_body
       = (Inr sample_project, [sample_project])"
    using sample_body_valid
    by (simp add: createProject_def create_def clone_def new_project_def sample_project_def)
  with p(1) have "p = sample_project" by simp
  moreover have "field sample_body ''status'' = JUndefined" by (simp add: field_def sample_body_def)
  ultimately show ?thesis using p sample_body_valid by auto
qed

section \<open>Create validation\<close>

















section \<open>List query validation\<close>










section \<open>Listing: the filters\<close>







lemma map_clone: "map clone xs = xs"
  by (induction xs) (simp_all add: clone_def)

lemma set_insert_sorted: "set (insert_sorted cmp x xs) = insert x (set xs)"
  by (induction xs) auto

lemma set_Array_sort: "set (Array_sort cmp xs) = set xs"
  by (induction xs) (simp_all add: Array_sort_def set_insert_sorted)




section \<open>Listing: the sort\<close>

lemma filter_insert_sorted:
  assumes "\<And>y. key y = key x \<Longrightarrow> cmp x y \<le> 0"
  shows "filter (\<lambda>y. key y = k) (insert_sorted cmp x ys) =
           (if key x = k then x # filter (\<lambda>y. key y = k) ys else filter (\<lambda>y. key y = k) ys)"
  using assms by (induction ys) auto

lemma Array_sort_stable:
  assumes "\<And>x y. key y = key x \<Longrightarrow> cmp x y \<le> 0"
  shows "filter (\<lambda>y. key y = k) (Array_sort cmp xs) = filter (\<lambda>y. key y = k) xs"
proof (induction xs)
  case Nil
  show ?case by (simp add: Array_sort_def)
next
  case (Cons x xs)
  have "Array_sort cmp (x # xs) = insert_sorted cmp x (Array_sort cmp xs)"
    by (simp add: Array_sort_def)
  with Cons show ?case
    using filter_insert_sorted[of key x cmp k "Array_sort cmp xs"] assms by simp
qed

lemma sorted_insert_sorted:
  assumes tot: "\<And>a b. cmp a b \<le> 0 \<or> cmp b a \<le> 0"
    and trans: "\<And>a b c. cmp a b \<le> 0 \<Longrightarrow> cmp b c \<le> 0 \<Longrightarrow> cmp a c \<le> 0"
    and "sorted_wrt (\<lambda>a b. cmp a b \<le> 0) ys"
  shows "sorted_wrt (\<lambda>a b. cmp a b \<le> 0) (insert_sorted cmp x ys)"
  using assms(3)
proof (induction ys)
  case Nil
  show ?case by simp
next
  case (Cons y ys)
  show ?case
  proof (cases "cmp x y \<le> 0")
    case True
    with Cons.prems trans have "\<forall>z \<in> set ys. cmp x z \<le> 0" by auto
    with True Cons.prems show ?thesis by simp
  next
    case False
    with tot have "cmp y x \<le> 0" by blast
    with False Cons show ?thesis by (auto simp: set_insert_sorted)
  qed
qed

lemma sorted_Array_sort:
  assumes "\<And>a b. cmp a b \<le> 0 \<or> cmp b a \<le> 0"
    and "\<And>a b c. cmp a b \<le> 0 \<Longrightarrow> cmp b c \<le> 0 \<Longrightarrow> cmp a c \<le> 0"
  shows "sorted_wrt (\<lambda>a b. cmp a b \<le> 0) (Array_sort cmp xs)"
proof (induction xs)
  case Nil
  show ?case by (simp add: Array_sort_def)
next
  case (Cons x xs)
  have "Array_sort cmp (x # xs) = insert_sorted cmp x (Array_sort cmp xs)"
    by (simp add: Array_sort_def)
  with Cons sorted_insert_sorted[of cmp "Array_sort cmp xs" x] assms show ?case by metis
qed

lemma compare_asc:
  "compare_projects sortv (JStr ''asc'') a b \<le> 0 \<longleftrightarrow> sort_key sortv a \<le> sort_key sortv b"
  by (auto simp: compare_projects_def default_to_def)

lemma compare_desc:
  "default_to ''desc'' orderv \<noteq> JStr ''asc'' \<Longrightarrow>
   compare_projects sortv orderv a b \<le> 0 \<longleftrightarrow> sort_key sortv b \<le> sort_key sortv a"
  by (auto simp: compare_projects_def)

lemma compare_ties: "sort_key sortv b = sort_key sortv a \<Longrightarrow> compare_projects sortv orderv a b \<le> 0"
  by (simp add: compare_projects_def)

lemma compare_total:
  "compare_projects sortv orderv a b \<le> 0 \<or> compare_projects sortv orderv b a \<le> 0"
  by (cases "default_to ''desc'' orderv = JStr ''asc''") (auto simp: compare_projects_def)

lemma compare_trans:
  "compare_projects sortv orderv a b \<le> 0 \<Longrightarrow> compare_projects sortv orderv b c \<le> 0 \<Longrightarrow>
   compare_projects sortv orderv a c \<le> 0"
  by (cases "default_to ''desc'' orderv = JStr ''asc''")
     (auto simp: compare_projects_def split: if_splits)

lemma findAll_Inr:
  "findAll projects st search sortv orderv = Inr result \<Longrightarrow>
   \<exists>found. search_filter search (status_filter st (filter (\<lambda>p. \<not> isDeleted p) projects)) = Inr found
     \<and> result = Array_sort (compare_projects sortv orderv) found
     \<and> (\<exists>P. found = filter P projects)"
  by (auto simp: findAll_def map_clone search_filter_def status_filter_def
      split: sum.splits if_splits)


lemma sort_key_startDate: "sort_key (JStr ''startDate'') = startDate"
  by (simp add: sort_key_def sortField_def default_to_def fun_eq_iff)

lemma sort_key_default: "sort_key JUndefined = createdAt"
  by (simp add: sort_key_def sortField_def default_to_def fun_eq_iff)

lemma findAll_sorted:
  assumes "findAll projects st search sortv orderv = Inr result"
  shows "sorted_wrt (\<lambda>a b. compare_projects sortv orderv a b \<le> 0) result"
proof -
  from findAll_Inr[OF assms] obtain found where
    "result = Array_sort (compare_projects sortv orderv) found" by blast
  then show ?thesis
    using sorted_Array_sort[of "compare_projects sortv orderv" found] compare_total compare_trans
    by blast
qed

lemma findAll_stable:
  assumes "findAll projects st search sortv orderv = Inr result"
  shows "filter (\<lambda>p. sort_key sortv p = k) result =
         filter (\<lambda>p. sort_key sortv p = k \<and> p \<in> set result) projects"
proof -
  from findAll_Inr[OF assms] obtain found P where
    r: "result = Array_sort (compare_projects sortv orderv) found" and f: "found = filter P projects"
    by blast
  have "filter (\<lambda>p. sort_key sortv p = k) result = filter (\<lambda>p. sort_key sortv p = k) found"
    unfolding r by (rule Array_sort_stable) (rule compare_ties)
  also have "\<dots> = filter (\<lambda>p. sort_key sortv p = k \<and> P p) projects"
    by (simp add: f conj_commute)
  also have "\<dots> = filter (\<lambda>p. sort_key sortv p = k \<and> p \<in> set result) projects"
    by (rule filter_cong) (auto simp: r f set_Array_sort)
  finally show ?thesis .
qed

text \<open>
  Claim C8. For every store and every filter, the output of \<open>findAll\<close> with sort
  \<open>startDate\<close> and order \<open>asc\<close> is non-decreasing in the start dates, compared as strings;
  with no sort and no order it is non-increasing in \<open>createdAt\<close>; and for every sort and
  order, the records of the output with one and the same sort key stand in the order in
  which the store holds them. The sort key of \<open>startDate\<close> is the start date and the
  default sort key is \<open>createdAt\<close>.
\<close>

theorem findAll_sorted_stable:
  "(findAll projects st search (JStr ''startDate'') (JStr ''asc'') = Inr result
      \<longrightarrow> sorted_wrt (\<lambda>a b. startDate a \<le> startDate b) result)
   \<and> (findAll projects st search JUndefined JUndefined = Inr result
      \<longrightarrow> sorted_wrt (\<lambda>a b. createdAt b \<le> createdAt a) result)
   \<and> (findAll projects st search sortv orderv = Inr result
      \<longrightarrow> (\<forall>k. filter (\<lambda>p. sort_key sortv p = k) result =
               filter (\<lambda>p. sort_key sortv p = k \<and> p \<in> set result) projects))
   \<and> sort_key (JStr ''startDate'') = startDate \<and> sort_key JUndefined = createdAt"
proof -
  have a: "sorted_wrt (\<lambda>a b. startDate a \<le> startDate b) result"
    if "findAll projects st search (JStr ''startDate'') (JStr ''asc'') = Inr result"
    using findAll_sorted[OF that] by (simp add: compare_asc sort_key_startDate)
  have b: "sorted_wrt (\<lambda>a b. createdAt b \<le> createdAt a) result"
    if "findAll projects st search JUndefined JUndefined = Inr result"
    using findAll_sorted[OF that] by (simp add: compare_desc sort_key_default default_to_def)
  from a b findAll_stable sort_key_startDate sort_key_default show ?thesis by blast
qed

lemma sample_ties_by_startDate:
  "findAll [sample_project, sample_other, sample_tie] JUndefined JUndefined
     (JStr ''startDate'') (JStr ''asc'')
   = Inr [sample_other, sample_project, sample_tie]"
  by (simp add: findAll_def status_filter_def search_filter_def Array_sort_def clone_def
      compare_projects_def sort_key_def sortField_def default_to_def
      sample_project_def sample_other_def sample_tie_def)

lemma sample_ties_default:
  "findAll [sample_project, sample_other, sample_tie] JUndefined JUndefined JUndefined JUndefined
   = Inr [sample_tie, sample_other, sample_project]"
  by (simp add: findAll_def status_filter_def search_filter_def Array_sort_def clone_def
      compare_projects_def sort_key_def sortField_def default_to_def
      sample_project_def sample_other_def sample_tie_def)

theorem findAll_sorted_stable_witness:
  "findAll [sample_project, sample_other, sample_tie] JUndefined JUndefined
     (JStr ''startDate'') (JStr ''asc'') = Inr [sample_other, sample_project, sample_tie]
   \<and> sorted_wrt (\<lambda>a b. startDate a \<le> startDate b) [sample_other, sample_project, sample_tie]
   \<and> filter (\<lambda>p. sort_key (JStr ''startDate'') p = ''2026-01-15'')
        [sample_other, sample_project, sample_tie] = [sample_project, sample_tie]
   \<and> findAll [sample_project, sample_other, sample_tie] JUndefined JUndefined JUndefined JUndefined
       = Inr [sample_tie, sample_other, sample_project]
   \<and> sorted_wrt (\<lambda>a b. createdAt b \<le> createdAt a) [sample_tie, sample_other, sample_project]"
proof -
  let ?s = "[sample_project, sample_other, sample_tie]"
  note t1 = findAll_sorted_stable[of ?s JUndefined JUndefined "[sample_other, sample_project, sample_tie]"
      "JStr ''startDate''" "JStr ''asc''"]
  note t2 = findAll_sorted_stable[of ?s JUndefined JUndefined "[sample_tie, sample_other, sample_project]"
      JUndefined JUndefined]
  from t1 sample_ties_by_startDate
  have a: "sorted_wrt (\<lambda>a b. startDate a \<le> startDate b) [sample_other, sample_project, sample_tie]"
    and "filter (\<lambda>p. sort_key (JStr ''startDate'') p = ''2026-01-15'')
           [sample_other, sample_project, sample_tie]
         = filter (\<lambda>p. sort_key (JStr ''startDate'') p = ''2026-01-15''
                       \<and> p \<in> set [sample_other, sample_project, sample_tie]) ?s"
    by blast+
  then have b: "filter (\<lambda>p. sort_key (JStr ''startDate'') p = ''2026-01-15'')
        [sample_other, sample_project, sample_tie] = [sample_project, sample_tie]"
    by (simp add: sort_key_startDate sample_project_def sample_other_def sample_tie_def)
  from t2 sample_ties_default
  have c: "sorted_wrt (\<lambda>a b. createdAt b \<le> createdAt a) [sample_tie, sample_other, sample_project]"
    by blast
  from a b c sample_ties_by_startDate sample_ties_default show ?thesis by blast
qed

section \<open>Sequences of requests: what every request preserves\<close>

lemma findIndex_Some: "findIndex P xs = Some k \<Longrightarrow> k < length xs \<and> P (xs ! k)"
proof (induction xs arbitrary: k)
  case Nil
  then show ?case by simp
next
  case (Cons x xs)
  then show ?case by (cases "P x") (auto split: option.splits)
qed

lemma update_store:
  "snd (update now s pid u) = s \<or>
   (\<exists>k<length s. project_id (s ! k) = pid \<and> fst (update now s pid u) = Some (merge (s ! k) u now)
      \<and> snd (update now s pid u) = s[k := merge (s ! k) u now])"
proof (cases "findIndex (\<lambda>q. project_id q = pid) s")
  case None
  then show ?thesis by (simp add: update_def)
next
  case (Some k)
  with findIndex_Some[OF Some] show ?thesis by (auto simp: update_def clone_def)
qed

lemma update_keeps:
  assumes "i < length s" and "set_project_id u = None" and "set_isDeleted u \<noteq> Some False"
  shows "length (snd (update now s pid u)) = length s
       \<and> project_id (snd (update now s pid u) ! i) = project_id (s ! i)
       \<and> (isDeleted (s ! i) \<longrightarrow> isDeleted (snd (update now s pid u) ! i))"
proof -
  have m: "project_id (merge p u now) = project_id p \<and> (isDeleted p \<longrightarrow> isDeleted (merge p u now))"
    for p using assms(2,3) by (cases "set_isDeleted u") (auto simp: merge_def or_old_def)
  from update_store[of now s pid u] show ?thesis
  proof
    assume "snd (update now s pid u) = s"
    then show ?thesis by simp
  next
    assume "\<exists>k<length s. project_id (s ! k) = pid \<and> fst (update now s pid u) = Some (merge (s ! k) u now)
      \<and> snd (update now s pid u) = s[k := merge (s ! k) u now]"
    then obtain k where "k < length s" "snd (update now s pid u) = s[k := merge (s ! k) u now]"
      by blast
    with assms(1) m show ?thesis by (cases "i = k") auto
  qed
qed

lemma createProject_store:
  "snd (createProject parse now uuid s body) = s \<and> (\<exists>e. fst (createProject parse now uuid s body) = Inl e)
   \<or> (\<exists>p. project_id p = uuid \<and> status p \<in> set VALID_STATUSES
          \<and> createProject parse now uuid s body = (Inr p, s @ [p]))"
proof (cases "validateCreateProject parse body")
  case (Inl e)
  then show ?thesis by (simp add: createProject_def)
next
  case (Inr d)
  from validateCreateProject_status[OF Inr] have "status d \<in> set VALID_STATUSES"
    by (auto simp: VALID_STATUSES_def)
  then have "status (new_project now uuid d) \<in> set VALID_STATUSES"
    by (auto simp: new_project_def VALID_STATUSES_def)
  moreover have "project_id (new_project now uuid d) = uuid" by (simp add: new_project_def)
  moreover have "createProject parse now uuid s body =
      (Inr (new_project now uuid d), s @ [new_project now uuid d])"
    using Inr by (simp add: createProject_def create_def clone_def)
  ultimately show ?thesis by blast
qed

lemma updateProjectStatus_store:
  "snd (updateProjectStatus now s pid body) = s
   \<or> (\<exists>newStatus \<in> set VALID_STATUSES.
         updateProjectStatus now s pid body =
           (Inr (fst (update now s pid (no_updates\<lparr>set_status := Some newStatus\<rparr>))),
            snd (update now s pid (no_updates\<lparr>set_status := Some newStatus\<rparr>))))"
proof (cases "validateStatusUpdate body")
  case (Inl e)
  then show ?thesis by (simp add: updateProjectStatus_def)
next
  case (Inr newStatus)
  from validateStatusUpdate_Inr[OF Inr] have "newStatus \<in> set VALID_STATUSES" by simp
  with Inr show ?thesis
    by (auto simp: updateProjectStatus_def split: sum.splits option.splits)
qed

lemma deleteProject_store:
  "snd (deleteProject now s pid) = s
   \<or> snd (deleteProject now s pid) = snd (update now s pid (no_updates\<lparr>set_isDeleted := Some True\<rparr>))"
  by (auto simp: deleteProject_def split: sum.splits)

lemma step_keeps:
  assumes "i < length s"
  shows "i < length (snd (step parse s op))
       \<and> project_id (snd (step parse s op) ! i) = project_id (s ! i)
       \<and> (isDeleted (s ! i) \<longrightarrow> isDeleted (snd (step parse s op) ! i))"
proof (cases op)
  case (Create body now uuid)
  with createProject_store[of parse now uuid s body] assms show ?thesis
    by (auto simp: nth_append)
next
  case (UpdateStatus pid body now)
  have "i < length (snd (update now s pid (no_updates\<lparr>set_status := Some n\<rparr>)))
       \<and> project_id (snd (update now s pid (no_updates\<lparr>set_status := Some n\<rparr>)) ! i) = project_id (s ! i)
       \<and> (isDeleted (s ! i) \<longrightarrow> isDeleted (snd (update now s pid (no_updates\<lparr>set_status := Some n\<rparr>)) ! i))"
    for n using update_keeps[OF assms, of "no_updates\<lparr>set_status := Some n\<rparr>" now pid] assms
    by (simp add: no_updates_def)
  with UpdateStatus updateProjectStatus_store[of now s pid body] assms show ?thesis
    by auto
next
  case (Delete pid now)
  have "i < length (snd (update now s pid (no_updates\<lparr>set_isDeleted := Some True\<rparr>)))
       \<and> project_id (snd (update now s pid (no_updates\<lparr>set_isDeleted := Some True\<rparr>)) ! i) = project_id (s ! i)
       \<and> (isDeleted (s ! i) \<longrightarrow> isDeleted (snd (update now s pid (no_updates\<lparr>set_isDeleted := Some True\<rparr>)) ! i))"
    using update_keeps[OF assms, of "no_updates\<lparr>set_isDeleted := Some True\<rparr>" now pid] assms
    by (simp add: no_updates_def)
  with Delete deleteProject_store[of now s pid] assms show ?thesis by auto
qed (use assms in simp_all)

lemma update_returns_stored:
  "fst (update now s pid u) = Some p \<Longrightarrow> p \<in> set (snd (update now s pid u))"
proof (cases "findIndex (\<lambda>q. project_id q = pid) s")
  case None
  assume "fst (update now s pid u) = Some p"
  with None show ?thesis by (simp add: update_def)
next
  case (Some k)
  assume "fst (update now s pid u) = Some p"
  with Some findIndex_Some[OF Some] show ?thesis
    by (auto simp: update_def clone_def intro: set_update_memI)
qed

lemma findAll_subset: "findAll s st search sortv orderv = Inr result \<Longrightarrow> set result \<subseteq> set s"
  using findAll_Inr[of s st search sortv orderv result] by (auto simp: set_Array_sort)

lemma step_returns_stored: "set (returned (fst (step parse s op))) \<subseteq> set (snd (step parse s op))"
proof (cases op)
  case (Create body now uuid)
  with createProject_store[of parse now uuid s body] show ?thesis by auto
next
  case (List query)
  show ?thesis
  proof (cases "listProjects s query")
    case (Inl e)
    with List show ?thesis by simp
  next
    case (Inr result)
    then have "set result \<subseteq> set s"
      by (auto simp: listProjects_def split: if_splits dest: findAll_subset)
    with List Inr show ?thesis by simp
  qed
next
  case (GetById pid)
  show ?thesis
  proof (cases "getProjectById s pid")
    case (Inl e)
    with GetById show ?thesis by simp
  next
    case (Inr p)
    then have "findById s pid = Some p" by (simp add: getProjectById_Inr)
    from findById_index[OF this] have "p \<in> set s" by (metis nth_mem)
    with GetById Inr show ?thesis by simp
  qed
next
  case (UpdateStatus pid body now)
  show ?thesis
  proof (cases "fst (updateProjectStatus now s pid body)")
    case (Inl e)
    with UpdateStatus show ?thesis by simp
  next
    case (Inr r)
    show ?thesis
    proof (cases r)
      case None
      with Inr UpdateStatus show ?thesis by simp
    next
      case (Some p)
      have "p \<in> set (snd (updateProjectStatus now s pid body))"
      proof (cases "validateStatusUpdate body")
        case (Inl e)
        with Inr show ?thesis by (simp add: updateProjectStatus_def)
      next
        case v: (Inr newStatus)
        show ?thesis
        proof (cases "getProjectById s pid")
          case (Inl e)
          with v Inr show ?thesis by (simp add: updateProjectStatus_def)
        next
          case g: (Inr q)
          then have "findById s pid = Some q" by (simp add: getProjectById_Inr)
          from findById_index[OF this] have q: "q \<in> set s" by (metis nth_mem)
          show ?thesis
          proof (cases "status q = newStatus")
            case True
            with v g Inr Some q show ?thesis by (simp add: updateProjectStatus_def)
          next
            case False
            with v g Inr Some show ?thesis
              by (auto simp: updateProjectStatus_def split: option.splits
                  dest: update_returns_stored)
          qed
        qed
      qed
      with UpdateStatus Inr Some show ?thesis by simp
    qed
  qed
next
  case (Delete pid now)
  then show ?thesis by (cases "fst (deleteProject now s pid)") simp_all
qed

lemma update_ids:
  "set_project_id u = None \<Longrightarrow> map project_id (snd (update now s pid u)) = map project_id s"
  using update_store[of now s pid u]
  by (auto simp: merge_def or_old_def map_update list_update_same_conv)

lemma updateProjectStatus_ids:
  "map project_id (snd (updateProjectStatus now s pid body)) = map project_id s"
  using updateProjectStatus_store[of now s pid body]
    update_ids[of "no_updates\<lparr>set_status := Some n\<rparr>" now s pid for n]
  by (auto simp: no_updates_def)

lemma deleteProject_ids:
  "map project_id (snd (deleteProject now s pid)) = map project_id s"
  using deleteProject_store[of now s pid]
    update_ids[of "no_updates\<lparr>set_isDeleted := Some True\<rparr>" now s pid]
  by (auto simp: no_updates_def)

lemma step_ids:
  assumes "distinct (map project_id s @ drawn op @ rest)"
  shows "distinct (map project_id (snd (step parse s op)) @ rest)"
proof (cases op)
  case (Create body now uuid)
  from assms Create have d: "distinct (map project_id s @ rest)"
    by (auto simp: disjoint_iff)
  from assms Create have d': "distinct (map project_id (s @ [p]) @ rest)"
    if "project_id p = uuid" for p
    using that by (auto simp: disjoint_iff)
  from createProject_store[of parse now uuid s body] show ?thesis
  proof
    assume "snd (createProject parse now uuid s body) = s
        \<and> (\<exists>e. fst (createProject parse now uuid s body) = Inl e)"
    with d Create show ?thesis by simp
  next
    assume "\<exists>p. project_id p = uuid \<and> status p \<in> set VALID_STATUSES
        \<and> createProject parse now uuid s body = (Inr p, s @ [p])"
    then obtain p where "project_id p = uuid"
      "createProject parse now uuid s body = (Inr p, s @ [p])" by blast
    with d'[of p] Create show ?thesis by simp
  qed
next
  case (UpdateStatus pid body now)
  with assms show ?thesis by (simp add: updateProjectStatus_ids)
next
  case (Delete pid now)
  with assms show ?thesis by (simp add: deleteProject_ids)
qed (use assms in simp_all)


lemma run_facts:
  assumes "(resp, after) \<in> set (run parse s ops)" and "i < length s"
  shows "i < length after
       \<and> project_id (after ! i) = project_id (s ! i)
       \<and> (isDeleted (s ! i) \<longrightarrow> isDeleted (after ! i))
       \<and> set (returned resp) \<subseteq> set after
       \<and> (distinct (map project_id s @ concat (map drawn ops)) \<longrightarrow> distinct (map project_id after))"
  using assms
proof (induction ops arbitrary: s)
  case Nil
  then show ?case by simp
next
  case (Cons op ops)
  let ?s1 = "snd (step parse s op)"
  note k = step_keeps[OF Cons.prems(2), of parse op]
  have d: "distinct (map project_id ?s1 @ concat (map drawn ops))"
    if "distinct (map project_id s @ concat (map drawn (op # ops)))"
    using step_ids[of s op "concat (map drawn ops)" parse] that by simp
  from Cons.prems(1) consider "(resp, after) = step parse s op"
    | "(resp, after) \<in> set (run parse ?s1 ops)" by auto
  then show ?case
  proof cases
    case 1
    then have "after = ?s1" "resp = fst (step parse s op)" by (metis snd_conv, metis fst_conv)
    with k d step_returns_stored[of parse s op] show ?thesis by auto
  next
    case 2
    from Cons.IH[OF 2] k d show ?thesis by auto
  qed
qed

lemma distinct_same_key:
  assumes "distinct (map f xs)" and "r \<in> set xs" and "i < length xs" and "f r = f (xs ! i)"
  shows "r = xs ! i"
proof -
  from assms(1) have "inj_on f (set xs)" by (simp add: distinct_map)
  with assms(2,3,4) show ?thesis by (auto dest: inj_onD)
qed

text \<open>
  Claim C3. Take a record of the store that is deleted, and any sequence of service
  requests (create, list, get by id, status update, delete) run from that store. After
  every request of the sequence the record is still in its place, with its id, and still
  deleted; and every record a response returns is a record of the store after the request.
  When, moreover, the ids of the store and the identifiers drawn for the creations are
  pairwise distinct, no record with the id of the deleted record, in the store or in a
  response, is ever not deleted.
\<close>

theorem soft_delete_is_monotone:
  assumes "i < length projects" and "isDeleted (projects ! i)"
    and "(resp, after) \<in> set (run parse projects ops)"
  shows "i < length after \<and> isDeleted (after ! i)
       \<and> project_id (after ! i) = project_id (projects ! i)
       \<and> set (returned resp) \<subseteq> set after
       \<and> (distinct (map project_id projects @ concat (map drawn ops)) \<longrightarrow>
            (\<forall>r \<in> set after \<union> set (returned resp).
               project_id r = project_id (projects ! i) \<longrightarrow> isDeleted r))"
proof -
  note f = run_facts[OF assms(3,1)]
  have "isDeleted r"
    if "distinct (map project_id projects @ concat (map drawn ops))"
      and "r \<in> set after \<union> set (returned resp)" and "project_id r = project_id (projects ! i)" for r
  proof -
    from that(2) f have "r \<in> set after" by blast
    moreover from that(1) f have "distinct (map project_id after)" by blast
    ultimately have "r = after ! i"
      using f that(3) by (intro distinct_same_key[of project_id]) simp_all
    with f assms(2) show ?thesis by simp
  qed
  with f assms(2) show ?thesis by blast
qed

text \<open>
  The statuses of the stored records stay among the three values: the hypothesis on the
  stored status in the theorems about status updates holds in every store the service
  builds.
\<close>

lemma step_valid_status:
  assumes "\<forall>p \<in> set s. status p \<in> set VALID_STATUSES"
  shows "\<forall>p \<in> set (snd (step parse s op)). status p \<in> set VALID_STATUSES"
proof (cases op)
  case (Create body now uuid)
  with createProject_store[of parse now uuid s body] assms show ?thesis by auto
next
  case (UpdateStatus pid body now)
  from updateProjectStatus_store[of now s pid body] show ?thesis
  proof
    assume "snd (updateProjectStatus now s pid body) = s"
    with UpdateStatus assms show ?thesis by simp
  next
    assume "\<exists>newStatus \<in> set VALID_STATUSES.
         updateProjectStatus now s pid body =
           (Inr (fst (update now s pid (no_updates\<lparr>set_status := Some newStatus\<rparr>))),
            snd (update now s pid (no_updates\<lparr>set_status := Some newStatus\<rparr>)))"
    then obtain n where n: "n \<in> set VALID_STATUSES"
      "snd (updateProjectStatus now s pid body) = snd (update now s pid (no_updates\<lparr>set_status := Some n\<rparr>))"
      by auto
    from update_store[of now s pid "no_updates\<lparr>set_status := Some n\<rparr>"] n(1) assms
    have "\<forall>p \<in> set (snd (update now s pid (no_updates\<lparr>set_status := Some n\<rparr>))). status p \<in> set VALID_STATUSES"
      by (auto simp: merge_status dest!: set_update_subset_insert[THEN subsetD])
    with n(2) UpdateStatus show ?thesis by simp
  qed
next
  case (Delete pid now)
  from update_store[of now s pid "no_updates\<lparr>set_isDeleted := Some True\<rparr>"] assms
  have "\<forall>p \<in> set (snd (update now s pid (no_updates\<lparr>set_isDeleted := Some True\<rparr>))). status p \<in> set VALID_STATUSES"
    by (auto simp: merge_isDeleted dest!: set_update_subset_insert[THEN subsetD])
  with Delete deleteProject_store[of now s pid] assms show ?thesis by auto
qed (use assms in simp_all)

lemma run_valid_status:
  assumes "\<forall>p \<in> set s. status p \<in> set VALID_STATUSES"
    and "(resp, after) \<in> set (run parse s ops)"
  shows "\<forall>p \<in> set after. status p \<in> set VALID_STATUSES"
  using assms
proof (induction ops arbitrary: s)
  case Nil
  then show ?case by simp
next
  case (Cons op ops)
  from Cons.prems(2) consider "after = snd (step parse s op)"
    | "(resp, after) \<in> set (run parse (snd (step parse s op)) ops)"
    by (auto simp: prod_eq_iff)
  then show ?case
  proof cases
    case 1
    with step_valid_status[OF Cons.prems(1), of parse op] show ?thesis by simp
  next
    case 2
    from Cons.IH[OF step_valid_status[OF Cons.prems(1), of parse op] 2] show ?thesis .
  qed
qed


lemma sample_run:
  "run sample_parse [sample_project, sample_deleted] sample_requests =
     [(Threw (not_found ''id-3''), [sample_project, sample_deleted]),
      (Threw (not_found ''id-3''), [sample_project, sample_deleted]),
      (Threw (not_found ''id-3''), [sample_project, sample_deleted]),
      (One sample_created, [sample_project, sample_deleted, sample_created])]"
proof -
  have g: "getProjectById [sample_project, sample_deleted] ''id-3'' = Inl (not_found ''id-3'')"
    by (simp add: getProjectById_def findById_def clone_def sample_project_def sample_deleted_def)
  have u: "updateProjectStatus ''2026-02-01T00:00:00.000Z'' [sample_project, sample_deleted] ''id-3''
             [(''status'', JStr ''on_hold'')]
           = (Inl (not_found ''id-3''), [sample_project, sample_deleted])"
    using g by (simp add: updateProjectStatus_def validateStatusUpdate_def field_def VALID_STATUSES_def)
  have d: "deleteProject ''2026-02-02T00:00:00.000Z'' [sample_project, sample_deleted] ''id-3''
           = (Inl (not_found ''id-3''), [sample_project, sample_deleted])"
    using g by (simp add: deleteProject_def)
  have c: "createProject sample_parse ''2026-02-03T00:00:00.000Z'' ''id-9''
             [sample_project, sample_deleted] sample_body
           = (Inr sample_created, [sample_project, sample_deleted, sample_created])"
    using sample_body_valid
    by (simp add: createProject_def create_def clone_def new_project_def sample_created_def)
  show ?thesis by (simp add: sample_requests_def g u d c)
qed

theorem soft_delete_is_monotone_witness:
  "1 < length [sample_project, sample_deleted]
   \<and> isDeleted ([sample_project, sample_deleted] ! 1)
   \<and> (One sample_created, [sample_project, sample_deleted, sample_created])
       \<in> set (run sample_parse [sample_project, sample_deleted] sample_requests)
   \<and> distinct (map project_id [sample_project, sample_deleted] @ concat (map drawn sample_requests))
   \<and> isDeleted ([sample_project, sample_deleted, sample_created] ! 1)
   \<and> project_id ([sample_project, sample_deleted, sample_created] ! 1) = ''id-3''
   \<and> project_id sample_created \<noteq> ''id-3''"
proof -
  have h: "1 < length [sample_project, sample_deleted]"
    "isDeleted ([sample_project, sample_deleted] ! 1)"
    "(One sample_created, [sample_project, sample_deleted, sample_created])
       \<in> set (run sample_parse [sample_project, sample_deleted] sample_requests)"
    by (simp_all add: sample_run) (simp add: sample_deleted_def)
  have d: "distinct (map project_id [sample_project, sample_deleted] @ concat (map drawn sample_requests))"
    by (simp add: sample_requests_def sample_project_def sample_deleted_def)
  note t = soft_delete_is_monotone[OF h]
  from t have a: "isDeleted ([sample_project, sample_deleted, sample_created] ! 1)"
    and b: "project_id ([sample_project, sample_deleted, sample_created] ! 1)
              = project_id ([sample_project, sample_deleted] ! 1)"
    by blast+
  from t d have "\<forall>r \<in> set [sample_project, sample_deleted, sample_created] \<union> set (returned (One sample_created)).
               project_id r = project_id ([sample_project, sample_deleted] ! 1) \<longrightarrow> isDeleted r"
    by blast
  then have "project_id sample_created = project_id ([sample_project, sample_deleted] ! 1)
      \<longrightarrow> isDeleted sample_created" by simp
  then have c: "project_id sample_created \<noteq> ''id-3''"
    by (simp add: sample_created_def sample_deleted_def)
  from h d a b c show ?thesis by (simp add: sample_deleted_def)
qed

end
